theory Spec2Isabelle
  imports Main "HOL-Library.Word"
begin

section \<open>The users table\<close>

text \<open>
  The account row lives in the PostgreSQL table \<open>users\<close>. The columns below are the
  ones the migrations and the route handlers read or write. \<open>usage_this_month\<close> and
  \<open>plan_limits_scrapes\<close> are SQL \<open>integer\<close> columns, that is 32-bit signed values;
  they are read through \<open>sint\<close>. \<open>subscription_status\<close> was added as a nullable
  \<open>TEXT DEFAULT 'none'\<close> column, so it is an option (\<open>None\<close> is SQL NULL). A timestamp
  is known by what JavaScript's \<open>getFullYear\<close> and \<open>getMonth\<close> (0 to 11) read of it, and
  the rest.
\<close>

type_synonym uuid = string

type_synonym int4 = "32 word"

datatype timestamp = Timestamp (getFullYear: int) (getMonth: int) (withinMonth: nat)

text \<open>
  Modelled from the spec: the \<open>CREATE TABLE users\<close> statement is not among the sources.
  \<open>usage_this_month\<close>, \<open>plan_limits_scrapes\<close> and \<open>plan\<close> are taken to be \<open>NOT NULL\<close>,
  as the data model of the specification has them (an integer counter, an integer limit,
  a plan name).
\<close>

record user_row =
  email :: "string option"
  plan :: string
  usage_this_month :: int4
  plan_limits_scrapes :: int4
  plan_limits_period :: string
  subscription_status :: "string option"
  smart_formatting :: bool
  trial_start_date :: "timestamp option"
  billing_date :: "timestamp option"
  updated_at :: timestamp
  google_provider_token :: "string option"
  google_provider_refresh_token :: "string option"
  stripe_customer_id :: "string option"
  stripe_subscription_id :: "string option"

type_synonym users_table = "uuid \<rightharpoonup> user_row"

section \<open>The atomic quota ledger: \<open>increment_usage_if_allowed\<close>\<close>

text \<open>
  The row the PL/pgSQL function returns (\<open>RETURNS TABLE\<close>). Its last two columns are
  called \<open>plan\<close> and \<open>subscription_status\<close> in the source; they carry the prefix
  \<open>result_\<close> here to keep them apart from the columns of \<open>users\<close>.
\<close>

record usage_result =
  allowed :: bool
  new_usage :: int4
  effective_limit :: int4
  result_plan :: string
  result_subscription_status :: "string option"

text \<open>
  PostgreSQL does not wrap \<open>integer\<close> arithmetic: \<open>usage_this_month + 1\<close> at
  \<open>2147483647\<close> aborts the statement with SQLSTATE 22003.
\<close>

datatype sql_error = Numeric_value_out_of_range

text \<open>
  \<open>increment_usage_if_allowed(p_user_id)\<close>, with the table passed in and returned and
  \<open>now()\<close> as an argument. \<open>SELECT ... INTO ... FOR UPDATE\<close> reads the row;
  \<open>IF NOT FOUND\<close> is the \<open>None\<close> case. The comparison \<open>v_status = 'past_due'\<close> is
  not true for a NULL status. The \<open>UPDATE ... RETURNING ... INTO\<close> assigns all four
  variables again from the updated row, \<open>v_limit\<close> included.
\<close>

definition increment_usage_if_allowed ::
  "timestamp \<Rightarrow> uuid \<Rightarrow> users_table \<Rightarrow> sql_error + (usage_result \<times> users_table)" where
  "increment_usage_if_allowed now p_user_id users =
     (case users p_user_id of
        None \<Rightarrow>
          Inr (\<lparr>allowed = False, new_usage = 0, effective_limit = 0,
                 result_plan = ''FREE'', result_subscription_status = Some ''none''\<rparr>, users)
      | Some u \<Rightarrow>
          (let v_usage = usage_this_month u;
               v_plan = plan u;
               v_status = subscription_status u;
               v_limit = (if v_status = Some ''past_due'' then 5 else plan_limits_scrapes u)
           in if sint v_usage \<ge> sint v_limit then
                Inr (\<lparr>allowed = False, new_usage = v_usage, effective_limit = v_limit,
                       result_plan = v_plan, result_subscription_status = v_status\<rparr>, users)
              else if sint (usage_this_month u) = 2147483647 then
                Inl Numeric_value_out_of_range
              else
                (let u' = u\<lparr>usage_this_month := usage_this_month u + 1, updated_at := now\<rparr>
                 in Inr (\<lparr>allowed = True, new_usage = usage_this_month u',
                           effective_limit = plan_limits_scrapes u',
                           result_plan = plan u',
                           result_subscription_status = subscription_status u'\<rparr>,
                         users(p_user_id \<mapsto> u')))))"

text \<open>\<open>getEffectiveLimit\<close> of \<open>utils/usage.js\<close>, on the same row type.\<close>

definition getEffectiveLimit :: "user_row \<Rightarrow> int4" where
  "getEffectiveLimit user =
     (if subscription_status user = Some ''past_due'' then 5 else plan_limits_scrapes user)"

text \<open>
  A run of calls on one account, one after the other: the row lock (\<open>FOR UPDATE\<close>)
  lets no call on the row start its read before the call holding the lock has
  committed or aborted, so concurrent calls on one account execute in some serial order.
  Each call has its own \<open>now()\<close>. A call that aborts leaves the table as it was.
\<close>

fun serial_calls ::
  "timestamp list \<Rightarrow> uuid \<Rightarrow> users_table \<Rightarrow> (sql_error + usage_result) list \<times> users_table" where
  "serial_calls [] p_user_id users = ([], users)"
| "serial_calls (now # nows) p_user_id users =
     (case increment_usage_if_allowed now p_user_id users of
        Inl e \<Rightarrow>
          (case serial_calls nows p_user_id users of (rs, users') \<Rightarrow> (Inl e # rs, users'))
      | Inr (r, users1) \<Rightarrow>
          (case serial_calls nows p_user_id users1 of (rs, users') \<Rightarrow> (Inr r # rs, users')))"

definition returned_allowed :: "sql_error + usage_result \<Rightarrow> bool" where
  "returned_allowed x = (case x of Inl e \<Rightarrow> False | Inr r \<Rightarrow> allowed r)"

definition allowed_count :: "(sql_error + usage_result) list \<Rightarrow> nat" where
  "allowed_count rs = length (filter returned_allowed rs)"

text \<open>Rows used as concrete inputs.\<close>

definition epoch :: timestamp where
  "epoch = Timestamp 2026 1 0"

definition later :: timestamp where
  "later = Timestamp 2026 1 1"

definition free_row :: user_row where
  "free_row =
     \<lparr>email = Some ''a@example.com'', plan = ''FREE'', usage_this_month = 0,
      plan_limits_scrapes = 5, plan_limits_period = ''monthly'',
      subscription_status = Some ''none'', smart_formatting = True,
      trial_start_date = None, billing_date = None, updated_at = epoch,
      google_provider_token = None, google_provider_refresh_token = None,
      stripe_customer_id = None, stripe_subscription_id = None\<rparr>"

definition pro_past_due_row :: "int4 \<Rightarrow> user_row" where
  "pro_past_due_row n =
     free_row\<lparr>plan := ''PRO'', usage_this_month := n, plan_limits_scrapes := 999999,
              subscription_status := Some ''past_due''\<rparr>"

definition quota_row :: "int4 \<Rightarrow> int4 \<Rightarrow> user_row" where
  "quota_row used limit = free_row\<lparr>usage_this_month := used, plan_limits_scrapes := limit\<rparr>"

section \<open>The shared cache: \<open>redis-service.js\<close> and \<open>user-cache-service.js\<close>\<close>

text \<open>
  On the JavaScript side a call that throws, or an awaited promise that rejects, has the
  value \<open>Inl error\<close>; \<open>try { body } catch (error) { handler }\<close> is \<open>try_catch\<close>.
\<close>

datatype js_error = Redis_error | JSON_SyntaxError | TypeError

definition try_catch :: "js_error + 'a \<Rightarrow> (js_error \<Rightarrow> js_error + 'a) \<Rightarrow> js_error + 'a" where
  "try_catch body handler = (case body of Inl error \<Rightarrow> handler error | Inr v \<Rightarrow> Inr v)"

text \<open>
  The strings Redis holds, by what \<open>JSON.parse\<close> makes of them. \<open>Stringified u\<close> is the
  text \<open>JSON.stringify\<close> gives for the row \<open>u\<close>, which \<open>JSON.parse\<close> reads back; it is
  never the empty string. \<open>Json_text s\<close> is the JSON text \<open>s\<close> of any other value
  (\<open>123\<close>, \<open>"abc"\<close>, \<open>[]\<close>, \<open>null\<close>): \<open>JSON.parse\<close> returns that value, \<open>Non_row s\<close>,
  or \<open>null\<close> (\<open>None\<close>) for the text \<open>null\<close>. \<open>Other_text s\<close> is a text that is not
  JSON, the empty string among them: \<open>JSON.parse\<close> throws a \<open>SyntaxError\<close>.
\<close>

datatype redis_string = Stringified user_row | Json_text string | Other_text string

datatype json_value = Row user_row | Non_row string

definition JSON_stringify :: "user_row \<Rightarrow> js_error + redis_string" where
  "JSON_stringify userData = Inr (Stringified userData)"

definition JSON_parse :: "redis_string \<Rightarrow> js_error + json_value option" where
  "JSON_parse data =
     (case data of
        Stringified u \<Rightarrow> Inr (Some (Row u))
      | Json_text s \<Rightarrow> Inr (if s = ''null'' then None else Some (Non_row s))
      | Other_text s \<Rightarrow> Inl JSON_SyntaxError)"

definition truthy_data :: "redis_string \<Rightarrow> bool" where
  "truthy_data data =
     (case data of Stringified u \<Rightarrow> True | Json_text s \<Rightarrow> s \<noteq> [] | Other_text s \<Rightarrow> s \<noteq> [])"

text \<open>
  The client of the \<open>redis\<close> package, as far as the service uses it: the flag \<open>isOpen\<close>
  and the keys with their values and expiry in seconds. The module variable
  \<open>redisClient\<close> is \<open>null\<close> (here \<open>None\<close>) when \<open>REDIS_URL\<close> is not set. Each command takes
  a flag \<open>rejects\<close>: whether this one command fails on the way to the server (a dropped
  connection, a timeout); a command that fails changes nothing.
\<close>

record redis_client =
  isOpen :: bool
  entries :: "string \<rightharpoonup> redis_string \<times> nat"

definition redis_get :: "bool \<Rightarrow> redis_client \<Rightarrow> string \<Rightarrow> js_error + redis_string option" where
  "redis_get rejects client key =
     (if rejects then Inl Redis_error else Inr (map_option fst (entries client key)))"

definition redis_set ::
  "bool \<Rightarrow> redis_client \<Rightarrow> string \<Rightarrow> redis_string \<Rightarrow> nat \<Rightarrow> js_error + redis_client" where
  "redis_set rejects client key data ex =
     (if rejects then Inl Redis_error
      else Inr (client\<lparr>entries := (entries client)(key \<mapsto> (data, ex))\<rparr>))"

definition redis_del :: "bool \<Rightarrow> redis_client \<Rightarrow> string \<Rightarrow> js_error + redis_client" where
  "redis_del rejects client key =
     (if rejects then Inl Redis_error
      else Inr (client\<lparr>entries := (entries client)(key := None)\<rparr>))"

definition isRedisConnected :: "redis_client option \<Rightarrow> bool" where
  "isRedisConnected redisClient =
     (case redisClient of None \<Rightarrow> False | Some client \<Rightarrow> isOpen client)"

definition USER_CACHE_PREFIX :: string where
  "USER_CACHE_PREFIX = ''user:profile:''"

definition CACHE_TTL :: nat where
  "CACHE_TTL = 3600"

text \<open>
  The three functions of \<open>user-cache-service.js\<close>. \<open>getCachedUser\<close> returns what
  \<open>JSON.parse\<close> gives, or \<open>null\<close> (\<open>None\<close>); the other two return nothing, so their value
  here is the client as they leave it.
\<close>

definition getCachedUser ::
  "bool \<Rightarrow> redis_client option \<Rightarrow> uuid \<Rightarrow> js_error + json_value option" where
  "getCachedUser rejects redisClient userId =
     (if \<not> isRedisConnected redisClient then Inr None
      else try_catch
        (case redisClient of
           None \<Rightarrow> Inl TypeError
         | Some client \<Rightarrow>
             (case redis_get rejects client (USER_CACHE_PREFIX @ userId) of
                Inl error \<Rightarrow> Inl error
              | Inr None \<Rightarrow> Inr None
              | Inr (Some data) \<Rightarrow>
                  if truthy_data data then JSON_parse data else Inr None))
        (\<lambda>error. Inr None))"

definition setCachedUser ::
  "bool \<Rightarrow> redis_client option \<Rightarrow> uuid \<Rightarrow> user_row \<Rightarrow> js_error + redis_client option" where
  "setCachedUser rejects redisClient userId userData =
     (if \<not> isRedisConnected redisClient then Inr redisClient
      else try_catch
        (case redisClient of
           None \<Rightarrow> Inl TypeError
         | Some client \<Rightarrow>
             (case JSON_stringify userData of
                Inl error \<Rightarrow> Inl error
              | Inr data \<Rightarrow>
                  (case redis_set rejects client (USER_CACHE_PREFIX @ userId) data CACHE_TTL of
                     Inl error \<Rightarrow> Inl error
                   | Inr client' \<Rightarrow> Inr (Some client'))))
        (\<lambda>error. Inr redisClient))"

definition invalidateUserCache ::
  "bool \<Rightarrow> redis_client option \<Rightarrow> uuid \<Rightarrow> js_error + redis_client option" where
  "invalidateUserCache rejects redisClient userId =
     (if \<not> isRedisConnected redisClient then Inr redisClient
      else try_catch
        (case redisClient of
           None \<Rightarrow> Inl TypeError
         | Some client \<Rightarrow>
             (case redis_del rejects client (USER_CACHE_PREFIX @ userId) of
                Inl error \<Rightarrow> Inl error
              | Inr client' \<Rightarrow> Inr (Some client')))
        (\<lambda>error. Inr redisClient))"

section \<open>Route handlers that write the users table\<close>

text \<open>
  The state the handlers work on: the \<open>users\<close> table behind the \<open>supabase\<close> client and
  the Redis client. A handler ends with an error response (status code and error text,
  \<open>Inl\<close>) or goes on with a value (\<open>Inr\<close>). The durable store is taken to be reachable.
\<close>

record backend =
  supabase_users :: users_table
  redis_state :: "redis_client option"

type_synonym 'a handled = "(nat \<times> string) + 'a"

text \<open>\<open>supabase.from('users').update(data).eq('id', userId)\<close>: no row, nothing written.\<close>

definition supabase_update :: "(user_row \<Rightarrow> user_row) \<Rightarrow> uuid \<Rightarrow> users_table \<Rightarrow> users_table" where
  "supabase_update data userId users =
     (case users userId of None \<Rightarrow> users | Some row \<Rightarrow> users(userId \<mapsto> data row))"

text \<open>
  \<open>resetMonthlyUsageIfNeeded(supabase, user, userId)\<close> of \<open>utils/usage.js\<close>, with
  \<open>new Date()\<close> as the argument \<open>now\<close>. It returns the table and the \<open>user\<close> object, which
  it mutates in place.
\<close>

definition resetMonthlyUsageIfNeeded ::
  "users_table \<Rightarrow> user_row \<Rightarrow> uuid \<Rightarrow> timestamp \<Rightarrow> users_table \<times> user_row" where
  "resetMonthlyUsageIfNeeded users user userId now =
     (case billing_date user of
        None \<Rightarrow> (users, user)
      | Some billingDate \<Rightarrow>
          (let monthsSince =
                 (getFullYear now - getFullYear billingDate) * 12
                 + (getMonth now - getMonth billingDate)
           in if monthsSince \<ge> 1 then
                (supabase_update
                   (\<lambda>row. row\<lparr>usage_this_month := 0, billing_date := Some now,
                               updated_at := now\<rparr>)
                   userId users,
                 user\<lparr>usage_this_month := 0, billing_date := Some now\<rparr>)
              else (users, user)))"

text \<open>
  \<open>POST /api/scrape\<close>, lines 53 to 82 of \<open>routes/scrape.js\<close>: the reset and the limit
  check on \<open>req.user\<close>. What follows in the handler (the extraction and the response)
  reads \<open>user\<close> and writes neither the table nor the cache.
\<close>

definition scrape_usage_gate ::
  "timestamp \<Rightarrow> uuid \<Rightarrow> user_row \<Rightarrow> backend \<Rightarrow> (user_row \<times> int4) handled \<times> backend" where
  "scrape_usage_gate now userId req_user s =
     (case resetMonthlyUsageIfNeeded (supabase_users s) req_user userId now of
        (users', user) \<Rightarrow>
          (let effectiveLimit = getEffectiveLimit user;
               limitReached = (sint (usage_this_month user) \<ge> sint effectiveLimit)
           in (if limitReached then Inl (403, ''Usage limit reached'')
               else Inr (user, effectiveLimit),
               s\<lparr>supabase_users := users'\<rparr>)))"

text \<open>
  \<open>POST /api/sheets/export\<close>, lines 111 to 168 of \<open>routes/sheets.js\<close>: the RPC, its
  error, the refusal, and the invalidation after an allowed call. The function returns
  one row on every path, so the handler's check for an empty result has no case here.
  An exception inside the handler reaches its \<open>catch\<close> and the error middleware.
\<close>

definition export_usage_gate ::
  "bool \<Rightarrow> timestamp \<Rightarrow> uuid \<Rightarrow> backend \<Rightarrow> usage_result handled \<times> backend" where
  "export_usage_gate rejects now userId s =
     (case increment_usage_if_allowed now userId (supabase_users s) of
        Inl rpcError \<Rightarrow> (Inl (500, ''Failed to process request. Please try again.''), s)
      | Inr (usageResult, users') \<Rightarrow>
          if \<not> allowed usageResult then
            (Inl (403,
               if result_subscription_status usageResult = Some ''past_due''
               then ''Your payment is past due. Please update your payment method.''
               else if result_plan usageResult = ''FREE''
               then ''Free plan limit reached. Please upgrade to continue.''
               else ''Monthly limit reached. Limit resets next billing cycle.''),
             s\<lparr>supabase_users := users'\<rparr>)
          else
            (case invalidateUserCache rejects (redis_state s) userId of
               Inl error \<Rightarrow> (Inl (500, ''Internal Server Error''), s\<lparr>supabase_users := users'\<rparr>)
             | Inr redisClient' \<Rightarrow>
                 (Inr usageResult, \<lparr>supabase_users = users', redis_state = redisClient'\<rparr>)))"

text \<open>
  \<open>PATCH /api/user/settings\<close>: \<open>smart_formatting\<close> is \<open>Some b\<close> when the body holds a
  boolean. \<open>.select().single()\<close> reports an error when no row was updated.
\<close>

definition patch_settings ::
  "bool \<Rightarrow> timestamp \<Rightarrow> uuid \<Rightarrow> bool option \<Rightarrow> backend \<Rightarrow> bool handled \<times> backend" where
  "patch_settings rejects now userId smart_formatting_body s =
     (let updateData =
            (\<lambda>row. case smart_formatting_body of
                      None \<Rightarrow> row\<lparr>updated_at := now\<rparr>
                    | Some b \<Rightarrow> row\<lparr>updated_at := now, smart_formatting := b\<rparr>)
      in case supabase_users s userId of
           None \<Rightarrow> (Inl (500, ''Failed to update settings''), s)
         | Some row \<Rightarrow>
             (let users' = supabase_update updateData userId (supabase_users s);
                  data = updateData row
              in case invalidateUserCache rejects (redis_state s) userId of
                   Inl error \<Rightarrow> (Inl (500, ''Internal server error''), s\<lparr>supabase_users := users'\<rparr>)
                 | Inr redisClient' \<Rightarrow>
                     (Inr (smart_formatting data),
                      \<lparr>supabase_users = users', redis_state = redisClient'\<rparr>)))"

section \<open>Rate limiter identities: \<open>middleware/rate-limit.js\<close>\<close>

text \<open>
  What the key functions read of a request: \<open>req.user?.id\<close>, the header
  \<open>x-forwarded-for\<close>, \<open>req.ip\<close> and \<open>req.connection.remoteAddress\<close>; \<open>None\<close> is
  \<open>undefined\<close>. A value is truthy when it is a string that is not empty. Header text is
  Latin-1, one \<open>char\<close> per character.
\<close>

record request =
  user_id :: "string option"
  x_forwarded_for :: "string option"
  ip :: "string option"
  remoteAddress :: "string option"
  path :: string

definition truthy :: "string option \<Rightarrow> bool" where
  "truthy v = (case v of None \<Rightarrow> False | Some text \<Rightarrow> text \<noteq> [])"

text \<open>\<open>String.prototype.split(',')\<close> and \<open>trim()\<close>.\<close>

fun split_comma :: "string \<Rightarrow> string list" where
  "split_comma [] = [[]]"
| "split_comma (c # cs) =
     (if c = CHR '','' then [] # split_comma cs
      else (c # hd (split_comma cs)) # tl (split_comma cs))"

definition js_whitespace :: "char \<Rightarrow> bool" where
  "js_whitespace c =
     (c \<in> set [CHR 0x09, CHR 0x0A, CHR 0x0B, CHR 0x0C, CHR 0x0D, CHR 0x20, CHR 0xA0])"

definition trim :: "string \<Rightarrow> string" where
  "trim text = rev (dropWhile js_whitespace (rev (dropWhile js_whitespace text)))"

definition getClientIp :: "request \<Rightarrow> string" where
  "getClientIp req =
     (if truthy (x_forwarded_for req) then trim (hd (split_comma (the (x_forwarded_for req))))
      else if truthy (ip req) then the (ip req)
      else if truthy (remoteAddress req) then the (remoteAddress req)
      else ''unknown'')"

definition keyGenerator :: "request \<Rightarrow> string" where
  "keyGenerator req =
     (if truthy (user_id req) then ''user:'' @ the (user_id req)
      else ''ip:'' @ getClientIp req)"

text \<open>
  The options each limiter is built with (\<open>max\<close> is \<open>max_requests\<close> here).
\<close>

record limiter_options =
  store_prefix :: string
  windowMs :: nat
  max_requests :: nat
  keyGenerator_option :: "(request \<Rightarrow> string) option"
  skipSuccessfulRequests :: bool
  skip :: "request \<Rightarrow> bool"

definition generalLimiter :: limiter_options where
  "generalLimiter =
     \<lparr>store_prefix = ''gen'', windowMs = 60 * 1000, max_requests = 200,
      keyGenerator_option = Some keyGenerator, skipSuccessfulRequests = False,
      skip = (\<lambda>req. path req = ''/health'')\<rparr>"

definition authLimiter :: limiter_options where
  "authLimiter =
     \<lparr>store_prefix = ''auth'', windowMs = 15 * 60 * 1000, max_requests = 20,
      keyGenerator_option = None, skipSuccessfulRequests = True,
      skip = (\<lambda>req. False)\<rparr>"

definition scrapeLimiter :: limiter_options where
  "scrapeLimiter =
     \<lparr>store_prefix = ''scrape'', windowMs = 60 * 1000, max_requests = 30,
      keyGenerator_option = Some keyGenerator, skipSuccessfulRequests = False,
      skip = (\<lambda>req. False)\<rparr>"

definition sheetsLimiter :: limiter_options where
  "sheetsLimiter =
     \<lparr>store_prefix = ''sheets'', windowMs = 60 * 1000, max_requests = 60,
      keyGenerator_option = Some keyGenerator, skipSuccessfulRequests = False,
      skip = (\<lambda>req. False)\<rparr>"

text \<open>
  The key a limiter counts a request under. A limiter built without \<open>keyGenerator\<close> uses
  the default of \<open>express-rate-limit\<close>, which is not part of the repository: it is the
  argument \<open>ipKey\<close>, applied to \<open>req.ip\<close>. (The version \<open>RATE_LIMITER.md\<close> names, 8.2.1,
  computes its default key from \<open>req.ip\<close> alone: the address itself for IPv4, its /56
  network for IPv6. The same file gives the scope of the auth limiter as
  \<open>Per IP address\<close>.)
\<close>

definition limiter_key ::
  "limiter_options \<Rightarrow> request \<Rightarrow> (string option \<Rightarrow> string option) \<Rightarrow> string option" where
  "limiter_key options req ipKey =
     (case keyGenerator_option options of
        Some generate \<Rightarrow> Some (generate req)
      | None \<Rightarrow> ipKey (ip req))"

text \<open>Two requests that reach the server from the same proxy, for different clients.\<close>

definition proxied_request :: request where
  "proxied_request =
     \<lparr>user_id = None,
      x_forwarded_for = Some ''203.0.113.195, 70.41.3.18, 150.172.238.178'',
      ip = Some ''10.0.0.3'', remoteAddress = Some ''10.0.0.3'',
      path = ''/api/auth/login''\<rparr>"

definition other_proxied_request :: request where
  "other_proxied_request = proxied_request\<lparr>x_forwarded_for := Some ''198.51.100.7''\<rparr>"

section \<open>The health probe: \<open>GET /health\<close> of \<open>server.js\<close>\<close>

text \<open>
  The handler reads the flag \<open>isShuttingDown\<close>, \<open>isRedisConnected()\<close> and the outcome of
  \<open>supabase.from('users').select('id').limit(1)\<close>: \<open>Inl\<close> when the call throws,
  otherwise the \<open>error\<close> field of what it returns (\<open>None\<close> for no error). Version,
  uptime and heap size are passed in as the text they are printed as.
\<close>

record health_services =
  services_redis :: string
  services_supabase :: string

record health_data =
  status :: string
  version :: string
  uptime :: string
  services :: health_services
  system_memory :: string

datatype health_body = Status_only string | Health_data health_data

definition body_status :: "health_body \<Rightarrow> string" where
  "body_status b = (case b of Status_only text \<Rightarrow> text | Health_data d \<Rightarrow> status d)"

definition health ::
  "bool \<Rightarrow> redis_client option \<Rightarrow> js_error + string option \<Rightarrow> string \<Rightarrow> string \<Rightarrow> string
     \<Rightarrow> nat \<times> health_body" where
  "health isShuttingDown redisClient probe pkg_version process_uptime heapUsedMB =
     (if isShuttingDown then (503, Status_only ''shutting_down'')
      else
        (let redisHealthy = isRedisConnected redisClient;
             supabaseHealthy = (case probe of Inl err \<Rightarrow> False | Inr error \<Rightarrow> error = None);
             isHealthy = (redisHealthy \<and> supabaseHealthy)
         in (if isHealthy then 200 else 207,
             Health_data
               \<lparr>status = (if isHealthy then ''ok'' else ''degraded''),
                version = pkg_version,
                uptime = process_uptime,
                services =
                  \<lparr>services_redis = (if redisHealthy then ''ok'' else ''error''),
                   services_supabase = (if supabaseHealthy then ''ok'' else ''error'')\<rparr>,
                system_memory = heapUsedMB @ ''MB''\<rparr>)))"

text \<open>Cache states used as concrete inputs.\<close>

definition closed_client :: redis_client where
  "closed_client =
     \<lparr>isOpen = False,
      entries = [USER_CACHE_PREFIX @ ''u1'' \<mapsto> (Stringified free_row, CACHE_TTL)]\<rparr>"

definition open_client :: redis_client where
  "open_client = closed_client\<lparr>isOpen := True\<rparr>"

text \<open>
  A free account that used its 5 scrapes in the billing period begun in January, as the
  table and the cache hold it when a request arrives in February.
\<close>

definition stale_row :: user_row where
  "stale_row = free_row\<lparr>usage_this_month := 5, billing_date := Some (Timestamp 2026 0 15)\<rparr>"

definition cached_backend :: backend where
  "cached_backend =
     \<lparr>supabase_users = [''u1'' \<mapsto> stale_row],
      redis_state =
        Some \<lparr>isOpen = True,
              entries = [USER_CACHE_PREFIX @ ''u1'' \<mapsto> (Stringified stale_row, CACHE_TTL)]\<rparr>\<rparr>"

text \<open>The same cache, with the account at usage 3 of 5 in the table.\<close>

definition fresh_backend :: backend where
  "fresh_backend = cached_backend\<lparr>supabase_users := [''u1'' \<mapsto> quota_row 3 5]\<rparr>"

section \<open>Properties of the ledger\<close>

lemma sint_succ_below:
  fixes v l :: int4
  assumes "sint v < sint l"
  shows "sint (v + 1) = sint v + 1"
proof -
  have "sint l < 2 ^ 31" using sint_lt [of l] by simp
  moreover have "- (2 ^ 31) \<le> sint v" using sint_ge [of v] by simp
  ultimately have "signed_take_bit 31 (sint v + 1) = sint v + 1"
    using assms by (intro signed_take_bit_int_eq_self) simp_all
  then show ?thesis by (simp add: sint_word_add)
qed

lemma sint_below_not_max:
  fixes v l :: int4
  assumes "sint v < sint l"
  shows "sint v \<noteq> 2147483647"
  using assms sint_lt [of l] by simp


subsection \<open>The three outcomes of one call\<close>

lemma increment_not_found:
  assumes "users p = None"
  shows "increment_usage_if_allowed now p users =
           Inr (\<lparr>allowed = False, new_usage = 0, effective_limit = 0,
                  result_plan = ''FREE'', result_subscription_status = Some ''none''\<rparr>, users)"
  using assms by (simp add: increment_usage_if_allowed_def)

lemma increment_denied:
  assumes "users p = Some u"
    and "sint (getEffectiveLimit u) \<le> sint (usage_this_month u)"
  shows "increment_usage_if_allowed now p users =
           Inr (\<lparr>allowed = False, new_usage = usage_this_month u,
                  effective_limit = getEffectiveLimit u,
                  result_plan = plan u,
                  result_subscription_status = subscription_status u\<rparr>, users)"
  using assms by (simp add: increment_usage_if_allowed_def getEffectiveLimit_def Let_def)

lemma increment_granted:
  assumes "users p = Some u"
    and "sint (usage_this_month u) < sint (getEffectiveLimit u)"
  shows "increment_usage_if_allowed now p users =
           Inr (\<lparr>allowed = True, new_usage = usage_this_month u + 1,
                  effective_limit = plan_limits_scrapes u,
                  result_plan = plan u,
                  result_subscription_status = subscription_status u\<rparr>,
                users(p \<mapsto> u\<lparr>usage_this_month := usage_this_month u + 1, updated_at := now\<rparr>))"
proof -
  have "sint (usage_this_month u) \<noteq> 2147483647"
    using assms(2) by (rule sint_below_not_max)
  then show ?thesis
    using assms by (simp add: increment_usage_if_allowed_def getEffectiveLimit_def Let_def)
qed

lemma getEffectiveLimit_frame [simp]:
  "getEffectiveLimit (u\<lparr>usage_this_month := n, updated_at := t\<rparr>) = getEffectiveLimit u"
  by (simp add: getEffectiveLimit_def)


subsection \<open>One call\<close>

text \<open>
  Claim C2. For an existing account, one call of \<open>increment_usage_if_allowed\<close> either
  finds the usage at or above the effective limit, and then returns \<open>allowed = false\<close>
  with \<open>new_usage\<close> the unchanged usage and writes nothing; or finds it below the limit,
  and then stores the usage plus exactly one (no wrap-around, no error) and returns
  \<open>allowed = true\<close> with \<open>new_usage\<close> equal to the stored value.
\<close>

theorem increment_usage_single_call:
  assumes "users p = Some u"
  shows "if sint (getEffectiveLimit u) \<le> sint (usage_this_month u)
         then \<exists>r. increment_usage_if_allowed now p users = Inr (r, users)
                \<and> \<not> allowed r \<and> new_usage r = usage_this_month u
         else \<exists>r users'.
                increment_usage_if_allowed now p users = Inr (r, users')
                \<and> allowed r
                \<and> sint (new_usage r) = sint (usage_this_month u) + 1
                \<and> map_option usage_this_month (users' p) = Some (new_usage r)"
proof (cases "sint (getEffectiveLimit u) \<le> sint (usage_this_month u)")
  case True
  then show ?thesis
    using assms increment_denied [of users p u now] by simp
next
  case False
  then have below: "sint (usage_this_month u) < sint (getEffectiveLimit u)" by simp
  have "sint (usage_this_month u + 1) = sint (usage_this_month u) + 1"
    using below by (rule sint_succ_below)
  then show ?thesis
    using assms False below increment_granted [of users p u now] by simp
qed

theorem increment_usage_single_call_witness:
  "(\<exists>r users'. increment_usage_if_allowed later ''u1'' [''u1'' \<mapsto> quota_row 3 5] = Inr (r, users')
      \<and> allowed r \<and> sint (new_usage r) = 4
      \<and> map_option usage_this_month (users' ''u1'') = Some (new_usage r))
   \<and> (\<exists>r. increment_usage_if_allowed later ''u1'' [''u1'' \<mapsto> quota_row 5 5]
              = Inr (r, [''u1'' \<mapsto> quota_row 5 5])
      \<and> \<not> allowed r \<and> new_usage r = 5)"
proof
  show "\<exists>r users'. increment_usage_if_allowed later ''u1'' [''u1'' \<mapsto> quota_row 3 5] = Inr (r, users')
      \<and> allowed r \<and> sint (new_usage r) = 4
      \<and> map_option usage_this_month (users' ''u1'') = Some (new_usage r)"
    using increment_usage_single_call [of "[''u1'' \<mapsto> quota_row 3 5]" "''u1''" "quota_row 3 5" later]
    by (simp add: quota_row_def free_row_def getEffectiveLimit_def)
  show "\<exists>r. increment_usage_if_allowed later ''u1'' [''u1'' \<mapsto> quota_row 5 5]
              = Inr (r, [''u1'' \<mapsto> quota_row 5 5])
      \<and> \<not> allowed r \<and> new_usage r = 5"
    using increment_usage_single_call [of "[''u1'' \<mapsto> quota_row 5 5]" "''u1''" "quota_row 5 5" later]
    by (simp add: quota_row_def free_row_def getEffectiveLimit_def)
qed

text \<open>
  Claim C5. For an id that references no row of \<open>users\<close>, the call returns (it raises
  nothing) the row \<open>allowed = false\<close>, \<open>new_usage = 0\<close>, \<open>effective_limit = 0\<close>,
  \<open>plan = 'FREE'\<close>, \<open>subscription_status = 'none'\<close>, and the table is the one it was
  given.
\<close>

theorem increment_usage_unknown_account:
  assumes "users p = None"
  shows "increment_usage_if_allowed now p users =
           Inr (\<lparr>allowed = False, new_usage = 0, effective_limit = 0,
                  result_plan = ''FREE'', result_subscription_status = Some ''none''\<rparr>, users)"
  using assms by (rule increment_not_found)

theorem increment_usage_unknown_account_witness:
  "increment_usage_if_allowed later ''nobody'' [''u1'' \<mapsto> quota_row 3 5] =
     Inr (\<lparr>allowed = False, new_usage = 0, effective_limit = 0,
            result_plan = ''FREE'', result_subscription_status = Some ''none''\<rparr>,
          [''u1'' \<mapsto> quota_row 3 5])"
  using increment_usage_unknown_account [of "[''u1'' \<mapsto> quota_row 3 5]" "''nobody''" later]
  by simp

text \<open>
  Claim C10. A call never aborts. When it returns \<open>allowed = true\<close> the table it leaves
  differs from the one it was given in the row of \<open>p_user_id\<close> only, and that row differs
  in \<open>usage_this_month\<close> (one more) and \<open>updated_at\<close> (\<open>now()\<close>) only: \<open>plan\<close>,
  \<open>plan_limits_scrapes\<close>, \<open>subscription_status\<close>, \<open>billing_date\<close> and every other column
  keep their values. When it returns \<open>allowed = false\<close> (limit reached, or no such
  account) the table is unchanged.
\<close>

theorem increment_usage_frame:
  "\<exists>r users'.
     increment_usage_if_allowed now p users = Inr (r, users')
     \<and> (if allowed r
        then \<exists>u. users p = Some u
               \<and> users' = users(p \<mapsto> u\<lparr>usage_this_month := usage_this_month u + 1,
                                        updated_at := now\<rparr>)
               \<and> map_option plan (users' p) = Some (plan u)
               \<and> map_option plan_limits_scrapes (users' p) = Some (plan_limits_scrapes u)
               \<and> map_option subscription_status (users' p) = Some (subscription_status u)
               \<and> map_option billing_date (users' p) = Some (billing_date u)
        else users' = users)"
proof (cases "users p")
  case None
  then show ?thesis by (simp add: increment_not_found)
next
  case (Some u)
  show ?thesis
  proof (cases "sint (getEffectiveLimit u) \<le> sint (usage_this_month u)")
    case True
    then show ?thesis using Some increment_denied [of users p u now] by simp
  next
    case False
    then have "sint (usage_this_month u) < sint (getEffectiveLimit u)" by simp
    then show ?thesis using Some increment_granted [of users p u now] by simp
  qed
qed

theorem increment_usage_frame_witness:
  "\<exists>r users'.
     increment_usage_if_allowed later ''u1'' [''u2'' \<mapsto> free_row, ''u1'' \<mapsto> quota_row 3 5]
       = Inr (r, users')
     \<and> allowed r
     \<and> users' = [''u2'' \<mapsto> free_row,
                  ''u1'' \<mapsto> (quota_row 3 5)\<lparr>usage_this_month := 4, updated_at := later\<rparr>]"
  using increment_usage_frame [of later "''u1''" "[''u2'' \<mapsto> free_row, ''u1'' \<mapsto> quota_row 3 5]"]
  by (simp add: increment_usage_if_allowed_def getEffectiveLimit_def quota_row_def free_row_def
      Let_def)


text \<open>
  Claim C4. For an account whose \<open>subscription_status\<close> is \<open>past_due\<close> the call allows
  the request exactly when the usage is below 5, whatever \<open>plan_limits_scrapes\<close> holds
  (the limit \<open>getEffectiveLimit\<close> gives is 5 as well). In particular the account with
  plan PRO, limit 999999, status \<open>past_due\<close> and usage 5 is refused.
\<close>

theorem past_due_limit_is_five:
  assumes "users p = Some u" and "subscription_status u = Some ''past_due''"
  shows "getEffectiveLimit u = 5
         \<and> (\<exists>r users'. increment_usage_if_allowed now p users = Inr (r, users')
                \<and> allowed r = (sint (usage_this_month u) < 5))
         \<and> (\<exists>r. increment_usage_if_allowed now p [p \<mapsto> pro_past_due_row 5]
                    = Inr (r, [p \<mapsto> pro_past_due_row 5])
                \<and> \<not> allowed r)"
proof -
  have five: "getEffectiveLimit u = 5"
    using assms(2) by (simp add: getEffectiveLimit_def)
  have general: "\<exists>r users'. increment_usage_if_allowed now p users = Inr (r, users')
                \<and> allowed r = (sint (usage_this_month u) < 5)"
  proof (cases "sint (usage_this_month u) < 5")
    case True
    then show ?thesis
      using assms(1) five increment_granted [of users p u now] by simp
  next
    case False
    then show ?thesis
      using assms(1) five increment_denied [of users p u now] by simp
  qed
  have "getEffectiveLimit (pro_past_due_row 5) = 5"
    by (simp add: getEffectiveLimit_def pro_past_due_row_def)
  then have particular: "\<exists>r. increment_usage_if_allowed now p [p \<mapsto> pro_past_due_row 5]
                    = Inr (r, [p \<mapsto> pro_past_due_row 5]) \<and> \<not> allowed r"
    using increment_denied [of "[p \<mapsto> pro_past_due_row 5]" p "pro_past_due_row 5" now]
    by (simp add: pro_past_due_row_def)
  from five general particular show ?thesis by blast
qed

theorem past_due_limit_is_five_witness:
  "getEffectiveLimit (pro_past_due_row 4) = 5
   \<and> (\<exists>r users'. increment_usage_if_allowed later ''u1'' [''u1'' \<mapsto> pro_past_due_row 4]
                     = Inr (r, users') \<and> allowed r)
   \<and> (\<exists>r. increment_usage_if_allowed later ''u1'' [''u1'' \<mapsto> pro_past_due_row 5]
              = Inr (r, [''u1'' \<mapsto> pro_past_due_row 5]) \<and> \<not> allowed r)"
  using past_due_limit_is_five
    [of "[''u1'' \<mapsto> pro_past_due_row 4]" "''u1''" "pro_past_due_row 4" later]
  by (simp add: pro_past_due_row_def free_row_def)

text \<open>
  Claim C3, at the point where the function departs from it. The account is past due
  with usage 3 and \<open>plan_limits_scrapes = 999999\<close>; the limit enforced, and the one
  \<open>getEffectiveLimit\<close> gives, is 5. The call is allowed, and the \<open>effective_limit\<close> column
  of the row it returns is 999999: \<open>UPDATE ... RETURNING u.plan_limits_scrapes ... INTO
  ..., v_limit, ...\<close> has overwritten the 5 assigned to \<open>v_limit\<close> before the check.
\<close>

theorem effective_limit_of_allowed_past_due_call:
  "getEffectiveLimit (pro_past_due_row 3) = 5
   \<and> increment_usage_if_allowed later ''u1'' [''u1'' \<mapsto> pro_past_due_row 3] =
       Inr (\<lparr>allowed = True, new_usage = 4, effective_limit = 999999,
              result_plan = ''PRO'', result_subscription_status = Some ''past_due''\<rparr>,
            [''u1'' \<mapsto> (pro_past_due_row 3)\<lparr>usage_this_month := 4, updated_at := later\<rparr>])"
  by (simp add: increment_usage_if_allowed_def getEffectiveLimit_def pro_past_due_row_def
      free_row_def Let_def)


text \<open>
  The \<open>effective_limit\<close> column in general: a refused call returns the limit that was
  enforced (\<open>getEffectiveLimit\<close>), an allowed call returns \<open>plan_limits_scrapes\<close> as
  stored. The two differ exactly for an allowed call on a past-due account.
\<close>

theorem returned_effective_limit:
  assumes "users p = Some u"
    and "increment_usage_if_allowed now p users = Inr (r, users')"
  shows "effective_limit r = (if allowed r then plan_limits_scrapes u else getEffectiveLimit u)"
proof (cases "sint (getEffectiveLimit u) \<le> sint (usage_this_month u)")
  case True
  then show ?thesis
    using assms increment_denied [of users p u now] by auto
next
  case False
  then have "sint (usage_this_month u) < sint (getEffectiveLimit u)" by simp
  then show ?thesis
    using assms increment_granted [of users p u now] by auto
qed

theorem returned_effective_limit_witness:
  "effective_limit (fst (projr (increment_usage_if_allowed later ''u1'' [''u1'' \<mapsto> quota_row 5 5])))
     = 5"
  using returned_effective_limit
    [of "[''u1'' \<mapsto> quota_row 5 5]" "''u1''" "quota_row 5 5" later
        "fst (projr (increment_usage_if_allowed later ''u1'' [''u1'' \<mapsto> quota_row 5 5]))"
        "snd (projr (increment_usage_if_allowed later ''u1'' [''u1'' \<mapsto> quota_row 5 5]))"]
  by (simp add: increment_usage_if_allowed_def getEffectiveLimit_def quota_row_def free_row_def
      Let_def)

text \<open>
  An allowed call never leaves the usage above the effective limit it was checked
  against, and the usage it returns is the one it stored.
\<close>

theorem allowed_call_stays_within_limit:
  assumes "users p = Some u"
    and "increment_usage_if_allowed now p users = Inr (r, users')"
    and "allowed r"
  shows "sint (new_usage r) \<le> sint (getEffectiveLimit u)
         \<and> map_option usage_this_month (users' p) = Some (new_usage r)"
proof -
  have below: "sint (usage_this_month u) < sint (getEffectiveLimit u)"
  proof (rule ccontr)
    assume "\<not> sint (usage_this_month u) < sint (getEffectiveLimit u)"
    then have "sint (getEffectiveLimit u) \<le> sint (usage_this_month u)" by simp
    then show False
      using assms increment_denied [of users p u now] by auto
  qed
  have "sint (usage_this_month u + 1) = sint (usage_this_month u) + 1"
    using below by (rule sint_succ_below)
  then show ?thesis
    using assms below increment_granted [of users p u now] by auto
qed

theorem allowed_call_stays_within_limit_witness:
  "sint (new_usage (fst (projr (increment_usage_if_allowed later ''u1'' [''u1'' \<mapsto> quota_row 4 5]))))
     \<le> 5"
  using allowed_call_stays_within_limit
    [of "[''u1'' \<mapsto> quota_row 4 5]" "''u1''" "quota_row 4 5" later
        "fst (projr (increment_usage_if_allowed later ''u1'' [''u1'' \<mapsto> quota_row 4 5]))"
        "snd (projr (increment_usage_if_allowed later ''u1'' [''u1'' \<mapsto> quota_row 4 5]))"]
  by (simp add: increment_usage_if_allowed_def getEffectiveLimit_def quota_row_def free_row_def
      Let_def)

subsection \<open>A run of calls on one account\<close>

lemma serial_calls_run:
  assumes "users p = Some u"
  shows "\<not> list_ex isl (fst (serial_calls nows p users))
    \<and> length (fst (serial_calls nows p users)) = length nows
    \<and> int (allowed_count (fst (serial_calls nows p users))) =
        min (int (length nows)) (max 0 (sint (getEffectiveLimit u) - sint (usage_this_month u)))
    \<and> map_option (\<lambda>u'. sint (usage_this_month u')) (snd (serial_calls nows p users) p) =
        Some (sint (usage_this_month u)
              + min (int (length nows))
                    (max 0 (sint (getEffectiveLimit u) - sint (usage_this_month u))))"
  using assms
proof (induction nows arbitrary: users u)
  case Nil
  then show ?case by (simp add: allowed_count_def)
next
  case (Cons now nows)
  show ?case
  proof (cases "sint (getEffectiveLimit u) \<le> sint (usage_this_month u)")
    case True
    have step: "increment_usage_if_allowed now p users =
           Inr (\<lparr>allowed = False, new_usage = usage_this_month u,
                  effective_limit = getEffectiveLimit u,
                  result_plan = plan u,
                  result_subscription_status = subscription_status u\<rparr>, users)"
      using Cons.prems True increment_denied [of users p u now] by simp
    show ?thesis
      using Cons.IH [of users u] Cons.prems True
      by (simp add: step split_beta allowed_count_def returned_allowed_def)
  next
    case False
    then have below: "sint (usage_this_month u) < sint (getEffectiveLimit u)" by simp
    define u1 where "u1 = u\<lparr>usage_this_month := usage_this_month u + 1, updated_at := now\<rparr>"
    define users1 where "users1 = users(p \<mapsto> u1)"
    have step: "increment_usage_if_allowed now p users =
           Inr (\<lparr>allowed = True, new_usage = usage_this_month u + 1,
                  effective_limit = plan_limits_scrapes u,
                  result_plan = plan u,
                  result_subscription_status = subscription_status u\<rparr>, users1)"
      unfolding users1_def u1_def
      using Cons.prems below increment_granted [of users p u now] by simp
    have row1: "users1 p = Some u1" by (simp add: users1_def)
    have usage1: "sint (usage_this_month u1) = sint (usage_this_month u) + 1"
      using below by (simp add: u1_def sint_succ_below)
    have limit1: "getEffectiveLimit u1 = getEffectiveLimit u"
      by (simp add: u1_def)
    show ?thesis
      using Cons.IH [of users1 u1] row1 below
      by (auto simp add: step split_beta allowed_count_def returned_allowed_def usage1 limit1
          min_def max_def)
  qed
qed

text \<open>
  Claim C1, as the function has it. \<open>U\<close> is the usage and \<open>L\<close> the effective limit of
  the account before the run. Every one of the \<open>K\<close> calls returns; the number of calls
  that return \<open>allowed = true\<close> is \<open>min K (max 0 (L - U))\<close>, and the usage left in the
  table is \<open>U\<close> plus that number. Where \<open>U \<le> L\<close> this is \<open>min K (L - U)\<close>; an account
  already above its limit (a paid plan that fell past due, say) is granted nothing and
  keeps its usage.
\<close>

theorem serial_calls_allowed_count:
  assumes "users p = Some u" and "serial_calls nows p users = (rs, users')"
  shows "\<not> list_ex isl rs
    \<and> length rs = length nows
    \<and> int (allowed_count rs) =
        min (int (length nows)) (max 0 (sint (getEffectiveLimit u) - sint (usage_this_month u)))
    \<and> map_option (\<lambda>u'. sint (usage_this_month u')) (users' p) =
        Some (sint (usage_this_month u)
              + min (int (length nows))
                    (max 0 (sint (getEffectiveLimit u) - sint (usage_this_month u))))"
  using serial_calls_run [of users p u nows] assms by simp

theorem serial_calls_allowed_count_witness:
  "allowed_count (fst (serial_calls (replicate 50 later) ''u1'' [''u1'' \<mapsto> quota_row 7 10])) = 3
   \<and> map_option (\<lambda>u'. sint (usage_this_month u'))
        (snd (serial_calls (replicate 50 later) ''u1'' [''u1'' \<mapsto> quota_row 7 10]) ''u1'')
      = Some 10"
  using serial_calls_allowed_count
    [of "[''u1'' \<mapsto> quota_row 7 10]" "''u1''" "quota_row 7 10" "replicate 50 later"
        "fst (serial_calls (replicate 50 later) ''u1'' [''u1'' \<mapsto> quota_row 7 10])"
        "snd (serial_calls (replicate 50 later) ''u1'' [''u1'' \<mapsto> quota_row 7 10])"]
  by (simp add: quota_row_def free_row_def getEffectiveLimit_def)

text \<open>
  The claim as written, with \<open>min K (L - U)\<close>, at one call on the PRO account that is
  past due with usage 6: the effective limit is 5, no call is allowed, and
  \<open>min 1 (5 - 6)\<close> is \<open>-1\<close>.
\<close>

theorem serial_calls_above_limit_counterexample:
  "int (allowed_count (fst (serial_calls [later] ''u1'' [''u1'' \<mapsto> pro_past_due_row 6])))
     \<noteq> min (int (length [later]))
           (sint (getEffectiveLimit (pro_past_due_row 6))
            - sint (usage_this_month (pro_past_due_row 6)))"
  by (simp add: increment_usage_if_allowed_def getEffectiveLimit_def pro_past_due_row_def
      free_row_def Let_def allowed_count_def returned_allowed_def)


section \<open>Properties of the cache service\<close>

lemma try_catch_value:
  "try_catch body (\<lambda>error. Inr v) = (case body of Inl error \<Rightarrow> Inr v | Inr w \<Rightarrow> Inr w)"
  by (simp add: try_catch_def)

lemma getCachedUser_returns: "\<exists>v. getCachedUser rejects rc userId = Inr v"
  by (simp add: getCachedUser_def try_catch_value split: sum.split)

lemma setCachedUser_returns: "\<exists>rc'. setCachedUser rejects rc userId userData = Inr rc'"
  by (simp add: setCachedUser_def try_catch_value split: sum.split)

lemma invalidateUserCache_returns: "\<exists>rc'. invalidateUserCache rejects rc userId = Inr rc'"
  by (simp add: invalidateUserCache_def try_catch_value split: sum.split)

lemma cache_disconnected:
  assumes "\<not> isRedisConnected rc"
  shows "getCachedUser rejects rc userId = Inr None"
    and "setCachedUser rejects rc userId userData = Inr rc"
    and "invalidateUserCache rejects rc userId = Inr rc"
  using assms by (simp_all add: getCachedUser_def setCachedUser_def invalidateUserCache_def)

lemma cache_command_rejected:
  shows "getCachedUser True rc userId = Inr None"
    and "setCachedUser True rc userId userData = Inr rc"
    and "invalidateUserCache True rc userId = Inr rc"
  by (simp_all add: getCachedUser_def setCachedUser_def invalidateUserCache_def try_catch_def
      redis_get_def redis_set_def redis_del_def JSON_stringify_def split: option.split)

text \<open>
  Claim C7. While Redis is not connected (no client, or a client that is not open),
  \<open>getCachedUser\<close> returns \<open>null\<close> whatever the store holds, and \<open>setCachedUser\<close> and
  \<open>invalidateUserCache\<close> leave the client as it is. No call of the three raises: each
  returns a value, for every client state and whether or not its Redis command is
  rejected; when the command is rejected the lookup gives \<open>null\<close> and the two writers
  change nothing.
\<close>

theorem cache_never_raises_and_degrades:
  "(\<not> isRedisConnected rc \<longrightarrow>
      getCachedUser rejects rc userId = Inr None
      \<and> setCachedUser rejects rc userId userData = Inr rc
      \<and> invalidateUserCache rejects rc userId = Inr rc)
   \<and> \<not> isl (getCachedUser rejects rc userId)
   \<and> \<not> isl (setCachedUser rejects rc userId userData)
   \<and> \<not> isl (invalidateUserCache rejects rc userId)
   \<and> getCachedUser True rc userId = Inr None
   \<and> setCachedUser True rc userId userData = Inr rc
   \<and> invalidateUserCache True rc userId = Inr rc"
proof -
  have "\<not> isl (getCachedUser rejects rc userId)"
    using getCachedUser_returns [of rejects rc userId] by auto
  moreover have "\<not> isl (setCachedUser rejects rc userId userData)"
    using setCachedUser_returns [of rejects rc userId userData] by auto
  moreover have "\<not> isl (invalidateUserCache rejects rc userId)"
    using invalidateUserCache_returns [of rejects rc userId] by auto
  ultimately show ?thesis
    by (simp add: cache_disconnected cache_command_rejected)
qed

theorem cache_never_raises_and_degrades_witness:
  "\<not> isRedisConnected (Some closed_client)
   \<and> entries closed_client (USER_CACHE_PREFIX @ ''u1'') = Some (Stringified free_row, CACHE_TTL)
   \<and> getCachedUser False (Some closed_client) ''u1'' = Inr None
   \<and> setCachedUser False (Some closed_client) ''u1'' (quota_row 1 5) = Inr (Some closed_client)
   \<and> invalidateUserCache False (Some closed_client) ''u1'' = Inr (Some closed_client)"
  using cache_never_raises_and_degrades [of "Some closed_client" False "''u1''" "quota_row 1 5"]
  by (simp add: isRedisConnected_def closed_client_def)



section \<open>Properties of the rate limiter keys\<close>

lemma hd_split_comma: "hd (split_comma header) = takeWhile (\<lambda>c. c \<noteq> CHR '','') header"
  by (induction header) simp_all

lemma keyGenerator_cases:
  shows "truthy (user_id req) \<Longrightarrow> keyGenerator req = ''user:'' @ the (user_id req)"
    and "\<not> truthy (user_id req) \<Longrightarrow> truthy (x_forwarded_for req) \<Longrightarrow>
           keyGenerator req =
             ''ip:'' @ trim (takeWhile (\<lambda>c. c \<noteq> CHR '','') (the (x_forwarded_for req)))"
    and "\<not> truthy (user_id req) \<Longrightarrow> \<not> truthy (x_forwarded_for req) \<Longrightarrow>
           keyGenerator req =
             ''ip:'' @ (if truthy (ip req) then the (ip req)
                       else if truthy (remoteAddress req) then the (remoteAddress req)
                       else ''unknown'')"
  by (simp_all add: keyGenerator_def getClientIp_def hd_split_comma)

text \<open>
  Claim C8, as the limiters have it. The general, scrape and sheets limiters key a
  request by \<open>keyGenerator\<close>: \<open>user:\<close> and the id of \<open>req.user\<close> when there is one;
  otherwise \<open>ip:\<close> and the trimmed text before the first comma of \<open>x-forwarded-for\<close> when
  the header is there; otherwise \<open>ip:\<close> and \<open>req.ip\<close>, or the socket's remote address,
  or \<open>unknown\<close>. The auth limiter is built without a key function: its key is the one
  the library computes from \<open>req.ip\<close>, so it is the same whatever \<open>req.user\<close> and
  \<open>x-forwarded-for\<close> hold.
\<close>

theorem limiter_identity_keys:
  "limiter_key generalLimiter req ipKey = Some (keyGenerator req)
   \<and> limiter_key scrapeLimiter req ipKey = Some (keyGenerator req)
   \<and> limiter_key sheetsLimiter req ipKey = Some (keyGenerator req)
   \<and> keyGenerator_option authLimiter = None
   \<and> limiter_key authLimiter req ipKey = ipKey (ip req)
   \<and> limiter_key authLimiter (req\<lparr>user_id := uid, x_forwarded_for := xff\<rparr>)
       = limiter_key authLimiter req
   \<and> (truthy (user_id req) \<longrightarrow> keyGenerator req = ''user:'' @ the (user_id req))
   \<and> (\<not> truthy (user_id req) \<and> truthy (x_forwarded_for req) \<longrightarrow>
        keyGenerator req =
          ''ip:'' @ trim (takeWhile (\<lambda>c. c \<noteq> CHR '','') (the (x_forwarded_for req))))
   \<and> (\<not> truthy (user_id req) \<and> \<not> truthy (x_forwarded_for req) \<longrightarrow>
        keyGenerator req =
          ''ip:'' @ (if truthy (ip req) then the (ip req)
                    else if truthy (remoteAddress req) then the (remoteAddress req)
                    else ''unknown''))"
proof -
  have "limiter_key authLimiter (req\<lparr>user_id := uid, x_forwarded_for := xff\<rparr>)
       = limiter_key authLimiter req"
    by (rule ext) (simp add: limiter_key_def authLimiter_def)
  then show ?thesis
    using keyGenerator_cases [of req]
    by (simp add: limiter_key_def generalLimiter_def scrapeLimiter_def sheetsLimiter_def
        authLimiter_def)
qed

theorem limiter_identity_keys_witness:
  "limiter_key generalLimiter (proxied_request\<lparr>user_id := Some ''user-123''\<rparr>) id
     = Some ''user:user-123''
   \<and> limiter_key scrapeLimiter proxied_request id = Some ''ip:203.0.113.195''
   \<and> limiter_key sheetsLimiter (proxied_request\<lparr>x_forwarded_for := None\<rparr>) id
     = Some ''ip:10.0.0.3''
   \<and> limiter_key authLimiter (proxied_request\<lparr>user_id := Some ''user-123'',
                                               x_forwarded_for := None\<rparr>)
     = limiter_key authLimiter proxied_request"
proof -
  have authenticated:
    "limiter_key generalLimiter (proxied_request\<lparr>user_id := Some ''user-123''\<rparr>) id
       = Some ''user:user-123''"
    using limiter_identity_keys
      [where req = "proxied_request\<lparr>user_id := Some ''user-123''\<rparr>" and ipKey = id
         and uid = None and xff = None]
    by (simp add: proxied_request_def truthy_def)
  have forwarded:
    "limiter_key scrapeLimiter proxied_request id = Some ''ip:203.0.113.195''"
    using limiter_identity_keys
      [where req = proxied_request and ipKey = id and uid = None and xff = None]
    by (simp add: proxied_request_def truthy_def trim_def js_whitespace_def)
  have direct:
    "limiter_key sheetsLimiter (proxied_request\<lparr>x_forwarded_for := None\<rparr>) id
       = Some ''ip:10.0.0.3''"
    using limiter_identity_keys
      [where req = "proxied_request\<lparr>x_forwarded_for := None\<rparr>" and ipKey = id
         and uid = None and xff = None]
    by (simp add: proxied_request_def truthy_def)
  have auth:
    "limiter_key authLimiter (proxied_request\<lparr>user_id := Some ''user-123'',
                                               x_forwarded_for := None\<rparr>)
       = limiter_key authLimiter proxied_request"
    using limiter_identity_keys
      [where req = proxied_request and ipKey = id and uid = "Some ''user-123''" and xff = None]
    by simp
  from authenticated forwarded direct auth show ?thesis by simp
qed

text \<open>
  The claim as written, for every limiter: two requests to an auth route that came
  through the same proxy for two clients, with no \<open>req.user\<close>. The identity the claim
  describes is the first entry of \<open>x-forwarded-for\<close>, which differs between the two;
  the auth limiter counts both under one key, whatever the library makes of the peer
  address \<open>10.0.0.3\<close>.
\<close>

theorem auth_limiter_key_counterexample:
  "keyGenerator proxied_request = ''ip:203.0.113.195''
   \<and> keyGenerator other_proxied_request = ''ip:198.51.100.7''
   \<and> limiter_key authLimiter proxied_request = limiter_key authLimiter other_proxied_request"
proof -
  have "limiter_key authLimiter proxied_request = limiter_key authLimiter other_proxied_request"
    by (rule ext)
      (simp add: limiter_key_def authLimiter_def other_proxied_request_def proxied_request_def)
  then show ?thesis
    by (simp add: keyGenerator_def getClientIp_def hd_split_comma other_proxied_request_def
        proxied_request_def truthy_def trim_def js_whitespace_def del: split_comma.simps)
qed

section \<open>Properties of the health probe\<close>

lemma health_running:
  "health False rc probe v up mem =
     (if isRedisConnected rc \<and> probe = Inr None then 200 else 207,
      Health_data
        \<lparr>status = (if isRedisConnected rc \<and> probe = Inr None then ''ok'' else ''degraded''),
         version = v, uptime = up,
         services =
           \<lparr>services_redis = (if isRedisConnected rc then ''ok'' else ''error''),
            services_supabase = (if probe = Inr None then ''ok'' else ''error'')\<rparr>,
         system_memory = mem @ ''MB''\<rparr>)"
  by (cases probe) (simp_all add: health_def Let_def)

lemma health_shutting_down:
  "health True rc probe v up mem = (503, Status_only ''shutting_down'')"
  by (simp add: health_def)

text \<open>
  Claim C9. The flag \<open>isShuttingDown\<close> is set by \<open>gracefulShutdown\<close> alone, which in the
  same synchronous run closes the listener and destroys every open socket, so a request
  is handled only while the flag is false. Then the probe reports \<open>services.redis\<close> and
  \<open>services.supabase\<close>, each \<open>ok\<close> or \<open>error\<close> on its own store alone. The overall
  status is \<open>degraded\<close> (HTTP 207) whenever either store is down, and \<open>ok\<close> (HTTP 200)
  when both are up. While the durable store is up the status is not \<open>unhealthy\<close>; in
  fact the status is \<open>ok\<close> or \<open>degraded\<close> on every input, a durable store that is down
  being reported as \<open>degraded\<close> like a cache that is down.
\<close>

theorem health_status_report:
  assumes "\<not> isShuttingDown"
  shows "\<exists>d. snd (health isShuttingDown rc probe v up mem) = Health_data d
        \<and> (services_redis (services d) = ''ok'') = isRedisConnected rc
        \<and> (services_redis (services d) = ''error'') = (\<not> isRedisConnected rc)
        \<and> (services_supabase (services d) = ''ok'') = (probe = Inr None)
        \<and> (services_supabase (services d) = ''error'') = (probe \<noteq> Inr None)
        \<and> (\<not> isRedisConnected rc \<or> probe \<noteq> Inr None \<longrightarrow> status d = ''degraded'')
        \<and> (isRedisConnected rc \<and> probe = Inr None \<longrightarrow> status d = ''ok'')
        \<and> (probe = Inr None \<longrightarrow> status d \<noteq> ''unhealthy'')
        \<and> (status d = ''ok'' \<or> status d = ''degraded'')
        \<and> fst (health isShuttingDown rc probe v up mem)
            = (if status d = ''ok'' then 200 else 207)"
  using assms by (simp add: health_running)

theorem health_status_report_witness:
  "(\<exists>d. snd (health False (Some open_client) (Inl Redis_error) ''1.0.0'' ''12.5'' ''48'')
           = Health_data d
        \<and> services_redis (services d) = ''ok''
        \<and> services_supabase (services d) = ''error''
        \<and> status d = ''degraded'')
   \<and> fst (health False (Some open_client) (Inl Redis_error) ''1.0.0'' ''12.5'' ''48'') = 207
   \<and> (\<exists>d. snd (health False (Some open_client) (Inr None) ''1.0.0'' ''12.5'' ''48'')
           = Health_data d
        \<and> services_redis (services d) = ''ok''
        \<and> services_supabase (services d) = ''ok''
        \<and> status d = ''ok'' \<and> status d \<noteq> ''unhealthy'')
   \<and> (\<exists>d. snd (health False (Some closed_client) (Inr None) ''1.0.0'' ''12.5'' ''48'')
           = Health_data d
        \<and> services_redis (services d) = ''error''
        \<and> services_supabase (services d) = ''ok''
        \<and> status d = ''degraded'' \<and> status d \<noteq> ''unhealthy'')"
  using health_status_report
      [of False "Some open_client" "Inl Redis_error" "''1.0.0''" "''12.5''" "''48''"]
    health_status_report
      [of False "Some open_client" "Inr None" "''1.0.0''" "''12.5''" "''48''"]
    health_status_report
      [of False "Some closed_client" "Inr None" "''1.0.0''" "''12.5''" "''48''"]
  by (simp add: health_running isRedisConnected_def open_client_def closed_client_def)

section \<open>Cache invalidation after writes to the users table\<close>

lemma get_after_invalidate:
  assumes "invalidateUserCache False rc userId = Inr rc'"
  shows "getCachedUser rejects rc' userId = Inr None"
proof (cases "isRedisConnected rc")
  case False
  then have "rc' = rc" using assms by (simp add: invalidateUserCache_def)
  then show ?thesis using False by (simp add: getCachedUser_def)
next
  case True
  then obtain client where client: "rc = Some client" "isOpen client"
    by (auto simp add: isRedisConnected_def split: option.splits)
  then have "rc' = Some (client\<lparr>entries := (entries client)(USER_CACHE_PREFIX @ userId := None)\<rparr>)"
    using assms True
    by (simp add: invalidateUserCache_def try_catch_def redis_del_def)
  then show ?thesis
    using client
    by (simp add: getCachedUser_def isRedisConnected_def try_catch_def redis_get_def)
qed

text \<open>
  The export handler after an allowed call: when its \<open>DEL\<close> is not rejected, the next
  lookup of the profile reports absent, whatever the cache held and whether or not Redis
  is connected.
\<close>

theorem export_invalidates:
  assumes "export_usage_gate False now userId s = (Inr usageResult, s')"
  shows "getCachedUser rejects (redis_state s') userId = Inr None"
proof -
  obtain rc' where "invalidateUserCache False (redis_state s) userId = Inr rc'"
    using invalidateUserCache_returns [of False "redis_state s" userId] by blast
  moreover from this have "redis_state s' = rc'"
    using assms
    by (auto simp add: export_usage_gate_def split: sum.splits prod.splits if_splits)
  ultimately show ?thesis using get_after_invalidate by blast
qed

theorem export_invalidates_witness:
  "getCachedUser False (redis_state fresh_backend) ''u1'' = Inr (Some (Row stale_row))
   \<and> getCachedUser False
        (redis_state (snd (export_usage_gate False later ''u1'' fresh_backend))) ''u1''
      = Inr None"
proof -
  have "\<exists>r. export_usage_gate False later ''u1'' fresh_backend =
           (Inr r, snd (export_usage_gate False later ''u1'' fresh_backend))"
    by (simp add: export_usage_gate_def increment_usage_if_allowed_def getEffectiveLimit_def
        invalidateUserCache_def isRedisConnected_def try_catch_def redis_del_def
        fresh_backend_def cached_backend_def quota_row_def free_row_def Let_def)
  then obtain r where "export_usage_gate False later ''u1'' fresh_backend =
           (Inr r, snd (export_usage_gate False later ''u1'' fresh_backend))" by blast
  then have "getCachedUser False
        (redis_state (snd (export_usage_gate False later ''u1'' fresh_backend))) ''u1'' = Inr None"
    by (rule export_invalidates)
  moreover have "getCachedUser False (redis_state fresh_backend) ''u1'' = Inr (Some (Row stale_row))"
    by (simp add: getCachedUser_def isRedisConnected_def try_catch_def redis_get_def
        truthy_data_def JSON_parse_def cached_backend_def fresh_backend_def)
  ultimately show ?thesis by simp
qed

text \<open>The same for \<open>PATCH /api/user/settings\<close> after a saved update.\<close>

theorem patch_settings_invalidates:
  assumes "patch_settings False now userId body s = (Inr saved, s')"
  shows "getCachedUser rejects (redis_state s') userId = Inr None"
proof -
  obtain rc' where "invalidateUserCache False (redis_state s) userId = Inr rc'"
    using invalidateUserCache_returns [of False "redis_state s" userId] by blast
  moreover from this have "redis_state s' = rc'"
    using assms
    by (auto simp add: patch_settings_def Let_def split: option.splits)
  ultimately show ?thesis using get_after_invalidate by blast
qed

theorem patch_settings_invalidates_witness:
  "getCachedUser False
     (redis_state (snd (patch_settings False later ''u1'' (Some False) cached_backend))) ''u1''
   = Inr None"
proof -
  have "patch_settings False later ''u1'' (Some False) cached_backend =
           (Inr False, snd (patch_settings False later ''u1'' (Some False) cached_backend))"
    by (simp add: patch_settings_def supabase_update_def
        invalidateUserCache_def isRedisConnected_def try_catch_def redis_del_def
        cached_backend_def Let_def)
  then show ?thesis by (rule patch_settings_invalidates)
qed

text \<open>
  Invalidation is idempotent: a second call right after the first returns, and leaves
  the client as the first left it.
\<close>

theorem invalidate_idempotent:
  "\<exists>rc'. invalidateUserCache False rc userId = Inr rc'
         \<and> invalidateUserCache False rc' userId = Inr rc'"
proof (cases "isRedisConnected rc")
  case False
  then show ?thesis by (simp add: invalidateUserCache_def)
next
  case True
  then obtain client where "rc = Some client" "isOpen client"
    by (auto simp add: isRedisConnected_def split: option.splits)
  then show ?thesis
    by (simp add: invalidateUserCache_def isRedisConnected_def try_catch_def redis_del_def)
qed

lemma scrape_usage_gate_keeps_cache:
  "redis_state (snd (scrape_usage_gate now userId req_user s)) = redis_state s"
  by (simp add: scrape_usage_gate_def Let_def split: prod.split)

text \<open>
  Claim C6, at the path that departs from it: the lazy monthly reset. A request to
  \<open>POST /api/scrape\<close> arrives in February for the account whose billing period began
  in January; Redis is connected and holds the profile. \<open>resetMonthlyUsageIfNeeded\<close>
  writes \<open>usage_this_month = 0\<close>, \<open>billing_date\<close> and \<open>updated_at\<close> to the table and the
  request goes on. Neither the function nor the handler calls \<open>invalidateUserCache\<close>:
  the client is as it was, and the next lookup returns the profile of before the reset
  (usage 5, billing date in January) instead of reporting absent.
\<close>

theorem lazy_reset_leaves_stale_cache:
  "scrape_usage_gate later ''u1'' stale_row cached_backend =
     (Inr (stale_row\<lparr>usage_this_month := 0, billing_date := Some later\<rparr>, 5),
      cached_backend
        \<lparr>supabase_users :=
           [''u1'' \<mapsto> stale_row\<lparr>usage_this_month := 0, billing_date := Some later,
                                    updated_at := later\<rparr>]\<rparr>)
   \<and> redis_state (snd (scrape_usage_gate later ''u1'' stale_row cached_backend))
       = redis_state cached_backend
   \<and> getCachedUser False
         (redis_state (snd (scrape_usage_gate later ''u1'' stale_row cached_backend))) ''u1''
       = Inr (Some (Row stale_row))"
proof -
  have run: "scrape_usage_gate later ''u1'' stale_row cached_backend =
     (Inr (stale_row\<lparr>usage_this_month := 0, billing_date := Some later\<rparr>, 5),
      cached_backend
        \<lparr>supabase_users :=
           [''u1'' \<mapsto> stale_row\<lparr>usage_this_month := 0, billing_date := Some later,
                                    updated_at := later\<rparr>]\<rparr>)"
    by (simp add: scrape_usage_gate_def resetMonthlyUsageIfNeeded_def supabase_update_def
        getEffectiveLimit_def cached_backend_def stale_row_def free_row_def later_def Let_def)
  have look: "getCachedUser False (redis_state cached_backend) ''u1'' = Inr (Some (Row stale_row))"
    by (simp add: getCachedUser_def isRedisConnected_def try_catch_def redis_get_def
        truthy_data_def JSON_parse_def cached_backend_def)
  show ?thesis
    using run look by (simp add: scrape_usage_gate_keeps_cache)
qed

end
